theory Spec2Isabelle
  imports Complex_Main "HOL-Library.AList"
begin

section \<open>Dates: the part of dayjs the dashboard uses\<close>

text \<open>
  The server sends every timestamp as a zone-less ISO date-time string, and the two bound
  inputs are \<open>datetime-local\<close> fields. \<open>dayjs(x)\<close> parses such a string into its civil
  fields; \<open>format\<close> prints fields back, and \<open>isAfter\<close>, \<open>isBefore\<close>, \<open>isSame\<close> (called with
  no unit) compare the instants \<open>valueOf()\<close>. A parsed date is the record of its fields.
  The instant is counted in milliseconds from 1970-01-01 00:00 in a zone of fixed offset,
  so that the offset cancels in every comparison. A string that does not parse (dayjs's
  Invalid Date) is outside the model.
\<close>

record datetime =
  year :: nat
  month :: nat
  day :: nat
  hour :: nat
  minute :: nat
  second :: nat

definition days_from_civil :: "nat \<Rightarrow> nat \<Rightarrow> nat \<Rightarrow> int" where
  "days_from_civil y m d =
     (let y' = (if m \<le> 2 then int y - 1 else int y);
          era = y' div 400;
          yoe = y' - era * 400;
          mp = (if 2 < m then int m - 3 else int m + 9);
          doy = (153 * mp + 2) div 5 + int d - 1;
          doe = yoe * 365 + yoe div 4 - yoe div 100 + doy
      in era * 146097 + doe - 719468)"

definition valueOf :: "datetime \<Rightarrow> int" where
  "valueOf t =
     ((days_from_civil (year t) (month t) (day t) * 24 + int (hour t)) * 60 + int (minute t)) * 60000
       + int (second t) * 1000"

definition isAfter :: "datetime \<Rightarrow> datetime \<Rightarrow> bool" where
  "isAfter t that = (valueOf that < valueOf t)"

definition isBefore :: "datetime \<Rightarrow> datetime \<Rightarrow> bool" where
  "isBefore t that = (valueOf t < valueOf that)"

definition isSame :: "datetime \<Rightarrow> datetime \<Rightarrow> bool" where
  "isSame t that = (valueOf t = valueOf that)"

definition digit :: "nat \<Rightarrow> char" where
  "digit n = ''0123456789'' ! (n mod 10)"

definition pad2 :: "nat \<Rightarrow> string" where
  "pad2 n = [digit (n div 10), digit n]"

definition pad4 :: "nat \<Rightarrow> string" where
  "pad4 n = [digit (n div 1000), digit (n div 100), digit (n div 10), digit n]"

text \<open>\<open>format("DD/MM HH:mm")\<close>, the label of a chart row: no year, no seconds.\<close>

definition format_DD_MM_HH_mm :: "datetime \<Rightarrow> string" where
  "format_DD_MM_HH_mm t =
     pad2 (day t) @ ''/'' @ pad2 (month t) @ '' '' @ pad2 (hour t) @ '':'' @ pad2 (minute t)"

text \<open>\<open>format("DD/MM/YYYY HH:mm")\<close>, the label of a table row.\<close>

definition format_DD_MM_YYYY_HH_mm :: "datetime \<Rightarrow> string" where
  "format_DD_MM_YYYY_HH_mm t =
     pad2 (day t) @ ''/'' @ pad2 (month t) @ ''/'' @ pad4 (year t) @ '' '' @
     pad2 (hour t) @ '':'' @ pad2 (minute t)"

section \<open>Data model\<close>

text \<open>A sample as the upload endpoint returns it, and as \<open>onUpload\<close> shapes it (with its label).\<close>

record raw_sample =
  timestamp :: datetime
  temperature :: real

record sample = raw_sample +
  timeLabel :: string

text \<open>The summary statistics of one file: \<open>{min, avg, max, start, end}\<close>.\<close>

record series_stats =
  stat_min :: real
  stat_avg :: real
  stat_max :: real
  stat_start :: datetime
  stat_end :: datetime

text \<open>One entry of the \<open>series\<close> state: \<open>{id, name, color, data, resampled, stats}\<close>.\<close>

record series =
  series_id :: nat
  name :: string
  color :: string
  data :: "sample list"
  resampled :: "sample list"
  stats :: "series_stats option"

text \<open>
  A chart row \<open>{timeLabel, timestamp, [s.name]: temperature, ...}\<close>. The per-series keys
  are kept in \<open>row_cols\<close>, in the order the object received them. In the source they share
  one object with the two fixed keys: a file named \<open>timeLabel\<close> or \<open>timestamp\<close> (spreadsheets
  are named \<open>*.xls\<close>, \<open>*.xlsx\<close> or \<open>*.csv\<close>) would overwrite a fixed key, and is outside
  this model.
\<close>

record row =
  row_timeLabel :: string
  row_timestamp :: datetime
  row_cols :: "(string \<times> real) list"

text \<open>A selected file (its name and content) and the multipart form posted for it.\<close>

record file_obj =
  file_name :: string
  file_content :: "nat list"

record form =
  form_file :: file_obj
  form_start :: "datetime option"
  form_end :: "datetime option"

text \<open>
  \<open>res.data\<close> of a successful upload is \<open>{data, stats, resampled}\<close>; a failed one throws an
  error whose \<open>response.data.detail\<close> may be missing at any level (\<open>None\<close>).
\<close>

record response =
  res_data :: "raw_sample list"
  res_stats :: "series_stats option"
  res_resampled :: "raw_sample list option"

datatype outcome = Failure "string option" | Response response

text \<open>
  The period filter \<open>{start, end}\<close>: each bound is the value of a \<open>datetime-local\<close> input,
  the empty string (falsy, \<open>None\<close>) or a date-time.
\<close>

record dateRange =
  dr_start :: "datetime option"
  dr_end :: "datetime option"

text \<open>The component's state, one field per \<open>useState\<close> of the dashboard.\<close>

record app_state =
  files :: "file_obj list"
  series :: "series list"
  loading :: bool
  uploadError :: string
  hiddenKeys :: "string list"
  dateRange :: dateRange

definition COLORS :: "string list" where
  "COLORS = [''#22c55e'', ''#3b82f6'', ''#f59e0b'', ''#ef4444'', ''#a855f7'']"

definition initial_state :: app_state where
  "initial_state =
     \<lparr>files = [], series = [], loading = False, uploadError = [], hiddenKeys = [],
      dateRange = \<lparr>dr_start = None, dr_end = None\<rparr>\<rparr>"

section \<open>Event handlers\<close>

text \<open>
  The repository holds the dashboard component twice. \<open>onFile\<close>, \<open>onReset\<close>, \<open>toggleLine\<close>,
  \<open>mergedData\<close>, \<open>activeSeries\<close> and \<open>showStats\<close> read the same in both copies. The later copy
  also sends the period with every upload and keeps the hourly resampled samples for the
  tables; the model follows it.
\<close>

text \<open>\<open>onFile\<close>: the picker's \<open>e.target.files\<close> is a list of files or null.\<close>

definition onFile :: "file_obj list option \<Rightarrow> app_state \<Rightarrow> app_state" where
  "onFile target_files st =
     st\<lparr>files := (case target_files of Some fs \<Rightarrow> take 5 fs | None \<Rightarrow> [])\<rparr>"

text \<open>
  The shaping of one response inside \<open>onUpload\<close>, the form built for one file (\<open>start\<close> and
  \<open>end\<close> are appended only when the bound is set), and the loop over the selected files.
  \<open>post i form\<close> is the outcome of the request sent for file \<open>i\<close>. The loop also returns the
  forms it has posted, in order.
\<close>

definition shaped :: "raw_sample list \<Rightarrow> sample list" where
  "shaped serie =
     map (\<lambda>d. \<lparr>timestamp = timestamp d, temperature = temperature d,
                timeLabel = format_DD_MM_HH_mm (timestamp d)\<rparr>) serie"

definition shapedResampled :: "raw_sample list option \<Rightarrow> sample list" where
  "shapedResampled resampled_opt =
     map (\<lambda>d. \<lparr>timestamp = timestamp d, temperature = temperature d,
                timeLabel = format_DD_MM_YYYY_HH_mm (timestamp d)\<rparr>)
       (case resampled_opt of Some r \<Rightarrow> r | None \<Rightarrow> [])"

definition upload_form :: "dateRange \<Rightarrow> file_obj \<Rightarrow> form" where
  "upload_form dr f = \<lparr>form_file = f, form_start = dr_start dr, form_end = dr_end dr\<rparr>"

fun upload_loop ::
  "(nat \<Rightarrow> form \<Rightarrow> outcome) \<Rightarrow> dateRange \<Rightarrow> file_obj list \<Rightarrow> nat \<Rightarrow> series list \<Rightarrow> form list
     \<Rightarrow> form list \<times> (string option + series list)" where
  "upload_loop post dr [] i results sent = (sent, Inr results)"
| "upload_loop post dr (f # rest) i results sent =
     (let fm = upload_form dr f in
      case post i fm of
        Failure detail \<Rightarrow> (sent @ [fm], Inl detail)
      | Response res \<Rightarrow>
          upload_loop post dr rest (Suc i)
            (results @
              [\<lparr>series_id = i, name = file_name f, color = COLORS ! (i mod length COLORS),
                data = shaped (res_data res), resampled = shapedResampled (res_resampled res),
                stats = res_stats res\<rparr>])
            (sent @ [fm]))"

text \<open>\<open>err?.response?.data?.detail || "Falha no upload/processamento"\<close>: an empty detail is falsy.\<close>

definition error_message :: "string option \<Rightarrow> string" where
  "error_message detail =
     (case detail of
        Some d \<Rightarrow> if d \<noteq> [] then d else ''Falha no upload/processamento''
      | None \<Rightarrow> ''Falha no upload/processamento'')"

text \<open>
  \<open>onUpload\<close>, run to completion: the state after the \<open>finally\<close> block and the forms posted.
\<close>

definition onUpload :: "(nat \<Rightarrow> form \<Rightarrow> outcome) \<Rightarrow> app_state \<Rightarrow> app_state \<times> form list" where
  "onUpload post st =
     (if length (files st) = 0 then (st, [])
      else
        let st1 = st\<lparr>loading := True, uploadError := [], series := []\<rparr>;
            (sent, r) = upload_loop post (dateRange st) (files st) 0 [] [];
            st2 = (case r of
                     Inr results \<Rightarrow> st1\<lparr>series := results\<rparr>
                   | Inl detail \<Rightarrow> st1\<lparr>uploadError := error_message detail\<rparr>)
        in (st2\<lparr>loading := False\<rparr>, sent))"

definition onReset :: "app_state \<Rightarrow> app_state" where
  "onReset st =
     st\<lparr>files := [], series := [], uploadError := [], hiddenKeys := [],
        dateRange := \<lparr>dr_start = None, dr_end = None\<rparr>\<rparr>"

definition toggleLine :: "string \<Rightarrow> app_state \<Rightarrow> app_state" where
  "toggleLine nm st =
     st\<lparr>hiddenKeys :=
          (if nm \<in> set (hiddenKeys st) then filter (\<lambda>n. n \<noteq> nm) (hiddenKeys st)
           else hiddenKeys st @ [nm])\<rparr>"

text \<open>The \<open>onChange\<close> handlers of the two bound inputs.\<close>

definition setStart :: "datetime option \<Rightarrow> app_state \<Rightarrow> app_state" where
  "setStart v st = st\<lparr>dateRange := (dateRange st)\<lparr>dr_start := v\<rparr>\<rparr>"

definition setEnd :: "datetime option \<Rightarrow> app_state \<Rightarrow> app_state" where
  "setEnd v st = st\<lparr>dateRange := (dateRange st)\<lparr>dr_end := v\<rparr>\<rparr>"

section \<open>Derived views\<close>

text \<open>
  The body of the inner \<open>forEach\<close> of \<open>mergedData\<close>. The \<open>Map\<close> named \<open>all\<close> is the list of its
  entries in insertion order: \<open>all.set\<close> of a missing label appends an entry, and the
  assignment \<open>all.get(d.timeLabel)[s.name] = d.temperature\<close> rewrites the entry's row in place.
\<close>

definition merge_sample :: "string \<Rightarrow> sample \<Rightarrow> (string \<times> row) list \<Rightarrow> (string \<times> row) list" where
  "merge_sample nm d all =
     (let all1 =
        (if map_of all (timeLabel d) = None
         then all @ [(timeLabel d,
                \<lparr>row_timeLabel = timeLabel d, row_timestamp = timestamp d, row_cols = []\<rparr>)]
         else all)
      in AList.map_entry (timeLabel d)
           (\<lambda>r. r\<lparr>row_cols := AList.update nm (temperature d) (row_cols r)\<rparr>) all1)"

text \<open>The two nested \<open>forEach\<close> loops, from the empty \<open>Map\<close>.\<close>

definition merge_all :: "series list \<Rightarrow> (string \<times> row) list" where
  "merge_all ss = fold (\<lambda>s all. fold (merge_sample (name s)) (data s) all) ss []"

definition mergedData :: "series list \<Rightarrow> dateRange \<Rightarrow> row list" where
  "mergedData ss dr =
     (let arr = map snd (merge_all ss) in
      if dr_start dr \<noteq> None \<or> dr_end dr \<noteq> None
      then filter (\<lambda>row.
             let t = row_timestamp row;
                 afterStart = (case dr_start dr of
                                 Some start \<Rightarrow> isAfter t start \<or> isSame t start
                               | None \<Rightarrow> True);
                 beforeEnd = (case dr_end dr of
                                Some end' \<Rightarrow> isBefore t end' \<or> isSame t end'
                              | None \<Rightarrow> True)
             in afterStart \<and> beforeEnd) arr
      else arr)"

text \<open>
  \<open>resampledBySeries\<close>: \<open>rows\<close> is the filtered list computed for one series, and the object
  \<open>map\<close> receives it under the series' name.
\<close>

definition resampled_rows :: "dateRange \<Rightarrow> series \<Rightarrow> sample list" where
  "resampled_rows dr s =
     filter (\<lambda>r.
        let t = timestamp r;
            okStart = (case dr_start dr of
                         Some start \<Rightarrow> isAfter t start \<or> isSame t start
                       | None \<Rightarrow> True);
            okEnd = (case dr_end dr of
                       Some end' \<Rightarrow> isBefore t end' \<or> isSame t end'
                     | None \<Rightarrow> True)
        in okStart \<and> okEnd) (resampled s)"

definition resampledBySeries :: "series list \<Rightarrow> dateRange \<Rightarrow> (string \<rightharpoonup> sample list)" where
  "resampledBySeries ss dr = fold (\<lambda>s m. m(name s \<mapsto> resampled_rows dr s)) ss Map.empty"

definition activeSeries :: "series list \<Rightarrow> string list \<Rightarrow> series list" where
  "activeSeries ss hidden = filter (\<lambda>s. name s \<notin> set hidden) ss"

definition showStats :: "series list \<Rightarrow> string list \<Rightarrow> series_stats option" where
  "showStats ss hidden =
     (if length (activeSeries ss hidden) = 1 then stats (activeSeries ss hidden ! 0) else None)"

section \<open>Notions of the specification\<close>

text \<open>
  The Range Filter as the specification words it: \<open>start\<close> absent or \<open>t \<ge> start\<close>, and
  \<open>end\<close> absent or \<open>t \<le> end\<close>.
\<close>

definition range_filter_spec :: "datetime \<Rightarrow> dateRange \<Rightarrow> bool" where
  "range_filter_spec t dr =
     ((case dr_start dr of None \<Rightarrow> True | Some start \<Rightarrow> valueOf start \<le> valueOf t) \<and>
      (case dr_end dr of None \<Rightarrow> True | Some end' \<Rightarrow> valueOf t \<le> valueOf end'))"

text \<open>A list without its repetitions, each element at the place of its first occurrence.\<close>

fun first_occurrences :: "'a list \<Rightarrow> 'a list" where
  "first_occurrences [] = []"
| "first_occurrences (x # xs) = x # filter (\<lambda>y. y \<noteq> x) (first_occurrences xs)"

text \<open>
  The series-major, sample-minor traversal of a batch: every sample with the name of its
  series, in the order the two loops visit them.
\<close>

definition traversal :: "series list \<Rightarrow> (string \<times> sample) list" where
  "traversal ss = concat (map (\<lambda>s. map (\<lambda>d. (name s, d)) (data s)) ss)"

text \<open>
  The states the dashboard can reach: from the initial one, by any handler. \<open>onUpload\<close>
  is asynchronous: besides a whole run, each of its three groups of state writes (at the
  start, on success with some results, on failure with some message) is a step of its own,
  so that other events may come between them.
\<close>

inductive reachable :: "app_state \<Rightarrow> bool" where
  reach_init: "reachable initial_state"
| reach_onFile: "reachable st \<Longrightarrow> reachable (onFile target_files st)"
| reach_onUpload: "reachable st \<Longrightarrow> reachable (fst (onUpload post st))"
| reach_onReset: "reachable st \<Longrightarrow> reachable (onReset st)"
| reach_toggleLine: "reachable st \<Longrightarrow> reachable (toggleLine nm st)"
| reach_setStart: "reachable st \<Longrightarrow> reachable (setStart v st)"
| reach_setEnd: "reachable st \<Longrightarrow> reachable (setEnd v st)"
| reach_upload_started:
    "reachable st \<Longrightarrow> reachable (st\<lparr>loading := True, uploadError := [], series := []\<rparr>)"
| reach_upload_done: "reachable st \<Longrightarrow> reachable (st\<lparr>series := results, loading := False\<rparr>)"
| reach_upload_failed: "reachable st \<Longrightarrow> reachable (st\<lparr>uploadError := msg, loading := False\<rparr>)"

text \<open>The \<open>Map\<close> after the loops have visited a given list of named samples.\<close>

definition merge_from :: "(string \<times> sample) list \<Rightarrow> (string \<times> row) list" where
  "merge_from xs = fold (\<lambda>p. merge_sample (fst p) (snd p)) xs []"

section \<open>Sample data\<close>

text \<open>
  Loggers A and B read on 15 March 2024 at the hours of the specification's scenario, and a
  logger C with two readings one year apart, at the same day, hour and minute.
\<close>

definition at_minute :: "nat \<Rightarrow> nat \<Rightarrow> nat \<Rightarrow> nat \<Rightarrow> nat \<Rightarrow> datetime" where
  "at_minute y mo d h mi = \<lparr>year = y, month = mo, day = d, hour = h, minute = mi, second = 0\<rparr>"

definition reading :: "datetime \<Rightarrow> real \<Rightarrow> raw_sample" where
  "reading t c = \<lparr>timestamp = t, temperature = c\<rparr>"

definition named_file :: "string \<Rightarrow> file_obj" where
  "named_file nm = \<lparr>file_name = nm, file_content = []\<rparr>"

definition seven_files :: "file_obj list" where
  "seven_files = map named_file [''a'', ''b'', ''c'', ''d'', ''e'', ''f'', ''g'']"

definition logger_A :: series where
  "logger_A = \<lparr>series_id = 0, name = ''A.csv'', color = COLORS ! (0 mod length COLORS),
     data = shaped [reading (at_minute 2024 3 15 10 0) 20, reading (at_minute 2024 3 15 11 0) 21],
     resampled = shapedResampled
       (Some [reading (at_minute 2024 3 15 10 0) 20, reading (at_minute 2024 3 15 11 0) 21]),
     stats = Some \<lparr>stat_min = 20, stat_avg = 41 / 2, stat_max = 21,
                    stat_start = at_minute 2024 3 15 10 0, stat_end = at_minute 2024 3 15 11 0\<rparr>\<rparr>"

definition logger_B :: series where
  "logger_B = \<lparr>series_id = 1, name = ''B.csv'', color = COLORS ! (1 mod length COLORS),
     data = shaped [reading (at_minute 2024 3 15 10 0) 22, reading (at_minute 2024 3 15 12 0) 23],
     resampled = shapedResampled None,
     stats = None\<rparr>"

definition logger_C :: series where
  "logger_C = \<lparr>series_id = 2, name = ''C.csv'', color = COLORS ! (2 mod length COLORS),
     data = shaped [reading (at_minute 2023 3 15 10 0) 5, reading (at_minute 2024 3 15 10 0) 7],
     resampled = shapedResampled (Some [reading (at_minute 2023 3 15 10 0) 5]),
     stats = Some \<lparr>stat_min = 5, stat_avg = 6, stat_max = 7,
                    stat_start = at_minute 2023 3 15 10 0, stat_end = at_minute 2024 3 15 10 0\<rparr>\<rparr>"

text \<open>
  A server that accepts every file, one that fails at a given request, the state after one
  successful batch, that state with three files selected, and a state with three series of
  which two are hidden.
\<close>

definition server_ok :: "nat \<Rightarrow> form \<Rightarrow> outcome" where
  "server_ok i fm =
     Response \<lparr>res_data = [reading (at_minute 2024 3 15 10 0) 20], res_stats = None,
               res_resampled = None\<rparr>"

definition server_failing_at :: "nat \<Rightarrow> string option \<Rightarrow> nat \<Rightarrow> form \<Rightarrow> outcome" where
  "server_failing_at k detail i fm = (if i = k then Failure detail else server_ok i fm)"

definition loaded_state :: app_state where
  "loaded_state = fst (onUpload server_ok (onFile (Some [named_file ''A.csv'']) initial_state))"

definition three_selected :: app_state where
  "three_selected =
     onFile (Some [named_file ''A.csv'', named_file ''B.csv'', named_file ''C.csv'']) loaded_state"

definition viewing :: app_state where
  "viewing = initial_state\<lparr>series := [logger_A, logger_B, logger_C], hiddenKeys := [''A.csv'', ''B.csv'']\<rparr>"

text \<open>Two files of the same name, each with one reading at 10:00.\<close>

definition dup_first :: series where
  "dup_first = \<lparr>series_id = 0, name = ''A.csv'', color = COLORS ! (0 mod length COLORS),
     data = shaped [reading (at_minute 2024 3 15 10 0) 2],
     resampled = shapedResampled (Some [reading (at_minute 2024 3 15 10 0) 2]),
     stats = None\<rparr>"

definition dup_second :: series where
  "dup_second = \<lparr>series_id = 1, name = ''A.csv'', color = COLORS ! (1 mod length COLORS),
     data = shaped [reading (at_minute 2024 3 15 10 0) 3],
     resampled = shapedResampled (Some [reading (at_minute 2024 3 15 10 0) 3]),
     stats = None\<rparr>"

section \<open>The sample data, evaluated\<close>

lemma name_loggers:
  "name logger_A = ''A.csv''" "name logger_B = ''B.csv''" "name logger_C = ''C.csv''"
  by (simp_all add: logger_A_def logger_B_def logger_C_def)

lemma stats_loggers:
  "stats logger_A = Some \<lparr>stat_min = 20, stat_avg = 41 / 2, stat_max = 21,
      stat_start = at_minute 2024 3 15 10 0, stat_end = at_minute 2024 3 15 11 0\<rparr>"
  "stats logger_B = None"
  "stats logger_C = Some \<lparr>stat_min = 5, stat_avg = 6, stat_max = 7,
      stat_start = at_minute 2023 3 15 10 0, stat_end = at_minute 2024 3 15 10 0\<rparr>"
  by (simp_all add: logger_A_def logger_B_def logger_C_def)

lemmas format_defs =
  shaped_def shapedResampled_def reading_def at_minute_def format_DD_MM_HH_mm_def
  format_DD_MM_YYYY_HH_mm_def pad2_def pad4_def digit_def

lemma data_logger_A:
  "data logger_A =
     [\<lparr>timestamp = at_minute 2024 3 15 10 0, temperature = 20, timeLabel = ''15/03 10:00''\<rparr>,
      \<lparr>timestamp = at_minute 2024 3 15 11 0, temperature = 21, timeLabel = ''15/03 11:00''\<rparr>]"
  by (simp add: logger_A_def format_defs)

lemma data_logger_B:
  "data logger_B =
     [\<lparr>timestamp = at_minute 2024 3 15 10 0, temperature = 22, timeLabel = ''15/03 10:00''\<rparr>,
      \<lparr>timestamp = at_minute 2024 3 15 12 0, temperature = 23, timeLabel = ''15/03 12:00''\<rparr>]"
  by (simp add: logger_B_def format_defs)

lemma data_logger_C:
  "data logger_C =
     [\<lparr>timestamp = at_minute 2023 3 15 10 0, temperature = 5, timeLabel = ''15/03 10:00''\<rparr>,
      \<lparr>timestamp = at_minute 2024 3 15 10 0, temperature = 7, timeLabel = ''15/03 10:00''\<rparr>]"
  by (simp add: logger_C_def format_defs)

lemma resampled_loggers:
  "resampled logger_A =
     [\<lparr>timestamp = at_minute 2024 3 15 10 0, temperature = 20, timeLabel = ''15/03/2024 10:00''\<rparr>,
      \<lparr>timestamp = at_minute 2024 3 15 11 0, temperature = 21, timeLabel = ''15/03/2024 11:00''\<rparr>]"
  "resampled logger_B = []"
  by (simp_all add: logger_A_def logger_B_def format_defs)

lemma merge_all_A_B:
  "merge_all [logger_A, logger_B] =
     [(''15/03 10:00'', \<lparr>row_timeLabel = ''15/03 10:00'', row_timestamp = at_minute 2024 3 15 10 0,
         row_cols = [(''A.csv'', 20), (''B.csv'', 22)]\<rparr>),
      (''15/03 11:00'', \<lparr>row_timeLabel = ''15/03 11:00'', row_timestamp = at_minute 2024 3 15 11 0,
         row_cols = [(''A.csv'', 21)]\<rparr>),
      (''15/03 12:00'', \<lparr>row_timeLabel = ''15/03 12:00'', row_timestamp = at_minute 2024 3 15 12 0,
         row_cols = [(''B.csv'', 23)]\<rparr>)]"
  by (simp add: merge_all_def merge_sample_def data_logger_A data_logger_B name_loggers Let_def)

lemma merge_all_B_A:
  "merge_all [logger_B, logger_A] =
     [(''15/03 10:00'', \<lparr>row_timeLabel = ''15/03 10:00'', row_timestamp = at_minute 2024 3 15 10 0,
         row_cols = [(''B.csv'', 22), (''A.csv'', 20)]\<rparr>),
      (''15/03 12:00'', \<lparr>row_timeLabel = ''15/03 12:00'', row_timestamp = at_minute 2024 3 15 12 0,
         row_cols = [(''B.csv'', 23)]\<rparr>),
      (''15/03 11:00'', \<lparr>row_timeLabel = ''15/03 11:00'', row_timestamp = at_minute 2024 3 15 11 0,
         row_cols = [(''A.csv'', 21)]\<rparr>)]"
  by (simp add: merge_all_def merge_sample_def data_logger_A data_logger_B name_loggers Let_def)

lemma merge_all_C:
  "merge_all [logger_C] =
     [(''15/03 10:00'', \<lparr>row_timeLabel = ''15/03 10:00'', row_timestamp = at_minute 2023 3 15 10 0,
         row_cols = [(''C.csv'', 7)]\<rparr>)]"
  by (simp add: merge_all_def merge_sample_def data_logger_C name_loggers Let_def)

lemma valueOf_examples:
  "valueOf (at_minute 2023 3 15 10 0) = 1678874400000"
  "valueOf (at_minute 2024 3 15 0 0) = 1710460800000"
  "valueOf (at_minute 2024 3 15 10 0) = 1710496800000"
  "valueOf (at_minute 2024 3 15 11 0) = 1710500400000"
  "valueOf (at_minute 2024 3 15 12 0) = 1710504000000"
  by (simp_all add: valueOf_def days_from_civil_def at_minute_def Let_def)

lemma name_dups: "name dup_first = ''A.csv''" "name dup_second = ''A.csv''"
  by (simp_all add: dup_first_def dup_second_def)


lemma data_dups:
  "data dup_first =
     [\<lparr>timestamp = at_minute 2024 3 15 10 0, temperature = 2, timeLabel = ''15/03 10:00''\<rparr>]"
  "data dup_second =
     [\<lparr>timestamp = at_minute 2024 3 15 10 0, temperature = 3, timeLabel = ''15/03 10:00''\<rparr>]"
  by (simp_all add: dup_first_def dup_second_def format_defs)


lemma resampled_dups:
  "resampled dup_first =
     [\<lparr>timestamp = at_minute 2024 3 15 10 0, temperature = 2, timeLabel = ''15/03/2024 10:00''\<rparr>]"
  "resampled dup_second =
     [\<lparr>timestamp = at_minute 2024 3 15 10 0, temperature = 3, timeLabel = ''15/03/2024 10:00''\<rparr>]"
  by (simp_all add: dup_first_def dup_second_def format_defs)


lemma merge_all_dups:
  "merge_all [dup_first, dup_second] =
     [(''15/03 10:00'', \<lparr>row_timeLabel = ''15/03 10:00'', row_timestamp = at_minute 2024 3 15 10 0,
         row_cols = [(''A.csv'', 3)]\<rparr>)]"
  by (simp add: merge_all_def merge_sample_def data_dups name_dups Let_def)

section \<open>Selection limit\<close>

lemma files_onUpload: "files (fst (onUpload post st)) = files st"
  by (simp add: onUpload_def Let_def split: prod.split sum.split)

text \<open>
  C9. After a file-selection event the pending list is the first five files offered (all
  of them when fewer, none when the picker has no list), and no reachable state holds more
  than five pending files.
\<close>

theorem files_at_most_five:
  "files (onFile (Some fs) st) = take 5 fs \<and> files (onFile None st) = [] \<and>
   length (files (onFile target_files st)) \<le> 5 \<and>
   (reachable st' \<longrightarrow> length (files st') \<le> 5)"
proof -
  have sel: "length (files (onFile target_files st)) \<le> 5" for st
    by (simp add: onFile_def split: option.split)
  have inv: "length (files st') \<le> 5" if "reachable st'"
    using that
  proof (induction rule: reachable.induct)
    case reach_init
    show ?case by (simp add: initial_state_def)
  next
    case (reach_onFile st target_files)
    show ?case by (simp add: onFile_def split: option.split)
  next
    case (reach_onUpload st post)
    then show ?case by (simp add: files_onUpload)
  next
    case (reach_onReset st)
    show ?case by (simp add: onReset_def)
  next
    case (reach_toggleLine st nm)
    then show ?case by (simp add: toggleLine_def)
  next
    case (reach_setStart st v)
    then show ?case by (simp add: setStart_def)
  next
    case (reach_setEnd st v)
    then show ?case by (simp add: setEnd_def)
  next
    case (reach_upload_started st)
    then show ?case by simp
  next
    case (reach_upload_done st results)
    then show ?case by simp
  next
    case (reach_upload_failed st msg)
    then show ?case by simp
  qed
  show ?thesis
    using sel inv by (simp add: onFile_def)
qed

theorem files_at_most_five_witness:
  "reachable (onFile (Some seven_files) initial_state) \<and>
   files (onFile (Some seven_files) initial_state) = map named_file [''a'', ''b'', ''c'', ''d'', ''e''] \<and>
   length (files (onFile (Some seven_files) initial_state)) \<le> 5"
proof -
  have r: "reachable (onFile (Some seven_files) initial_state)"
    by (rule reach_onFile [OF reach_init])
  have "files (onFile (Some seven_files) initial_state) = take 5 seven_files"
    using files_at_most_five [of seven_files initial_state None "onFile (Some seven_files) initial_state"]
    by simp
  moreover have "length (files (onFile (Some seven_files) initial_state)) \<le> 5"
    using files_at_most_five [of seven_files initial_state None "onFile (Some seven_files) initial_state"] r
    by simp
  ultimately show ?thesis
    using r by (simp add: seven_files_def)
qed

section \<open>Upload batches\<close>

text \<open>
  The loop stops at the first request that fails: it has posted the forms of the files up
  to that one and no other, and it returns the failure's detail, not the buffer.
\<close>

lemma upload_loop_first_failure:
  "k < length fs \<Longrightarrow>
   (\<forall>j<k. \<exists>res. post (i + j) (upload_form dr (fs ! j)) = Response res) \<Longrightarrow>
   post (i + k) (upload_form dr (fs ! k)) = Failure detail \<Longrightarrow>
   upload_loop post dr fs i results sent =
     (sent @ map (upload_form dr) (take (Suc k) fs), Inl detail)"
proof (induction fs arbitrary: i k results sent)
  case Nil
  then show ?case by simp
next
  case (Cons f rest)
  show ?case
  proof (cases k)
    case 0
    with Cons.prems show ?thesis by (simp add: Let_def)
  next
    case (Suc k')
    with Cons.prems(2) obtain res where res: "post i (upload_form dr f) = Response res"
      by force
    have "upload_loop post dr rest (Suc i) rs (sent @ [upload_form dr f]) =
          ((sent @ [upload_form dr f]) @ map (upload_form dr) (take (Suc k') rest), Inl detail)" for rs
    proof (rule Cons.IH)
      show "k' < length rest" using Cons.prems(1) Suc by simp
      show "\<forall>j<k'. \<exists>res. post (Suc i + j) (upload_form dr (rest ! j)) = Response res"
        using Cons.prems(2) Suc by (metis Suc_less_eq add_Suc_shift nth_Cons_Suc)
      show "post (Suc i + k') (upload_form dr (rest ! k')) = Failure detail"
        using Cons.prems(3) Suc by simp
    qed
    with res Suc show ?thesis by (simp add: Let_def)
  qed
qed

text \<open>
  C1, as the code has it. When the request for file \<open>k\<close> fails after the requests before it
  succeeded, no request is sent for the files after \<open>k\<close>, the buffer of results is dropped,
  and the Series Store is empty afterwards: \<open>onUpload\<close> clears it before the first request.
  So the store equals the store before the batch only if that one was empty. One message is
  set: the failure's detail when it is present and not empty, the fallback otherwise. The
  pending files, the hidden names and the period are untouched, and \<open>loading\<close> is off.
\<close>

theorem upload_failure_clears_store:
  assumes "k < length (files st)"
    and "\<forall>i<k. \<exists>res. post i (upload_form (dateRange st) (files st ! i)) = Response res"
    and "post k (upload_form (dateRange st) (files st ! k)) = Failure detail"
  shows "snd (onUpload post st) = map (upload_form (dateRange st)) (take (Suc k) (files st)) \<and>
         series (fst (onUpload post st)) = [] \<and>
         (series (fst (onUpload post st)) = series st \<longleftrightarrow> series st = []) \<and>
         uploadError (fst (onUpload post st)) =
           (case detail of
              Some d \<Rightarrow> if d = [] then ''Falha no upload/processamento'' else d
            | None \<Rightarrow> ''Falha no upload/processamento'') \<and>
         loading (fst (onUpload post st)) = False \<and>
         files (fst (onUpload post st)) = files st \<and>
         hiddenKeys (fst (onUpload post st)) = hiddenKeys st \<and>
         dateRange (fst (onUpload post st)) = dateRange st"
proof -
  have loop: "upload_loop post (dateRange st) (files st) 0 [] [] =
        (map (upload_form (dateRange st)) (take (Suc k) (files st)), Inl detail)"
    using upload_loop_first_failure [of k "files st" post 0 "dateRange st" detail "[]" "[]"] assms
    by simp
  from assms(1) have ne: "length (files st) \<noteq> 0" by auto
  show ?thesis
    using ne by (auto simp add: onUpload_def loop error_message_def split: option.split)
qed

theorem upload_failure_clears_store_witness:
  "1 < length (files three_selected) \<and>
   server_failing_at 1 (Some ''Planilha invalida'') 0
       (upload_form (dateRange three_selected) (files three_selected ! 0)) =
     Response \<lparr>res_data = [reading (at_minute 2024 3 15 10 0) 20], res_stats = None, res_resampled = None\<rparr> \<and>
   server_failing_at 1 (Some ''Planilha invalida'') 1
       (upload_form (dateRange three_selected) (files three_selected ! 1)) =
     Failure (Some ''Planilha invalida'') \<and>
   series three_selected \<noteq> [] \<and>
   series (fst (onUpload (server_failing_at 1 (Some ''Planilha invalida'')) three_selected)) = [] \<and>
   uploadError (fst (onUpload (server_failing_at 1 (Some ''Planilha invalida'')) three_selected)) =
     ''Planilha invalida'' \<and>
   map (\<lambda>fm. file_name (form_file fm))
     (snd (onUpload (server_failing_at 1 (Some ''Planilha invalida'')) three_selected)) =
     [''A.csv'', ''B.csv'']"
proof -
  let ?post = "server_failing_at 1 (Some ''Planilha invalida'')"
  have fs: "files three_selected = [named_file ''A.csv'', named_file ''B.csv'', named_file ''C.csv'']"
    by (simp add: three_selected_def onFile_def)
  have k: "1 < length (files three_selected)"
    by (simp add: fs)
  have ok0: "?post 0 (upload_form (dateRange three_selected) (files three_selected ! 0)) =
     Response \<lparr>res_data = [reading (at_minute 2024 3 15 10 0) 20], res_stats = None, res_resampled = None\<rparr>"
    by (simp add: server_failing_at_def server_ok_def)
  then have ok: "\<forall>i<1. \<exists>res. ?post i (upload_form (dateRange three_selected) (files three_selected ! i)) = Response res"
    by simp
  have bad: "?post 1 (upload_form (dateRange three_selected) (files three_selected ! 1)) =
     Failure (Some ''Planilha invalida'')"
    by (simp add: server_failing_at_def)
  have before: "series three_selected \<noteq> []"
    by (simp add: three_selected_def onFile_def loaded_state_def onUpload_def initial_state_def
          server_ok_def Let_def upload_form_def)
  note w = upload_failure_clears_store
    [of 1 three_selected ?post "Some ''Planilha invalida''", OF k ok bad]
  from w have "series (fst (onUpload ?post three_selected)) = []"
    "uploadError (fst (onUpload ?post three_selected)) = ''Planilha invalida''"
    by simp_all
  moreover from w have "map (\<lambda>fm. file_name (form_file fm)) (snd (onUpload ?post three_selected)) =
     [''A.csv'', ''B.csv'']"
    by (simp add: fs upload_form_def named_file_def)
  ultimately show ?thesis
    using k ok0 bad before by simp
qed

text \<open>
  C1 as stated fails: after one successful batch the store holds a series, and a batch whose
  first request fails leaves the store empty, not as it was.
\<close>

theorem upload_failure_keeps_store_counterexample:
  "series (fst (onUpload (server_failing_at 0 None) loaded_state)) \<noteq> series loaded_state"
  by code_simp

section \<open>Range filter\<close>

lemma mergedData_filter:
  "mergedData ss dr = filter (\<lambda>row. range_filter_spec (row_timestamp row) dr) (map snd (merge_all ss))"
  by (cases "dr_start dr"; cases "dr_end dr")
     (auto simp: mergedData_def range_filter_spec_def Let_def isAfter_def isBefore_def isSame_def
           intro!: filter_cong)

lemma resampled_rows_filter:
  "resampled_rows dr s = filter (\<lambda>r. range_filter_spec (timestamp r) dr) (resampled s)"
  by (cases "dr_start dr"; cases "dr_end dr")
     (auto simp: resampled_rows_def range_filter_spec_def Let_def isAfter_def isBefore_def isSame_def
           intro!: filter_cong)

text \<open>
  C2. The filter of the chart rows and the filter of a series' resampled samples both keep
  exactly the entries whose timestamp the Range Filter of the specification accepts:
  \<open>start\<close> absent or \<open>t \<ge> start\<close>, and \<open>end\<close> absent or \<open>t \<le> end\<close>, both bounds inclusive.
\<close>

theorem range_filter_inclusive:
  "mergedData ss dr =
     filter (\<lambda>row. range_filter_spec (row_timestamp row) dr) (map snd (merge_all ss)) \<and>
   resampled_rows dr s = filter (\<lambda>r. range_filter_spec (timestamp r) dr) (resampled s) \<and>
   (range_filter_spec t dr \<longleftrightarrow>
      (\<forall>b. dr_start dr = Some b \<longrightarrow> valueOf b \<le> valueOf t) \<and>
      (\<forall>e. dr_end dr = Some e \<longrightarrow> valueOf t \<le> valueOf e))"
proof -
  have "range_filter_spec t dr \<longleftrightarrow>
      (\<forall>b. dr_start dr = Some b \<longrightarrow> valueOf b \<le> valueOf t) \<and>
      (\<forall>e. dr_end dr = Some e \<longrightarrow> valueOf t \<le> valueOf e)"
    by (simp add: range_filter_spec_def split: option.split)
  with mergedData_filter [of ss dr] resampled_rows_filter [of dr s] show ?thesis
    by blast
qed

theorem range_filter_inclusive_witness:
  "mergedData [logger_A, logger_B]
      \<lparr>dr_start = Some (at_minute 2024 3 15 11 0), dr_end = Some (at_minute 2024 3 15 11 0)\<rparr> =
     [\<lparr>row_timeLabel = ''15/03 11:00'', row_timestamp = at_minute 2024 3 15 11 0,
       row_cols = [(''A.csv'', 21)]\<rparr>] \<and>
   resampled_rows
      \<lparr>dr_start = Some (at_minute 2024 3 15 11 0), dr_end = Some (at_minute 2024 3 15 11 0)\<rparr>
      logger_A =
     [\<lparr>timestamp = at_minute 2024 3 15 11 0, temperature = 21, timeLabel = ''15/03/2024 11:00''\<rparr>] \<and>
   range_filter_spec (at_minute 2024 3 15 11 0)
      \<lparr>dr_start = Some (at_minute 2024 3 15 11 0), dr_end = Some (at_minute 2024 3 15 11 0)\<rparr> \<and>
   \<not> range_filter_spec (at_minute 2024 3 15 10 0)
      \<lparr>dr_start = Some (at_minute 2024 3 15 11 0), dr_end = None\<rparr> \<and>
   \<not> range_filter_spec (at_minute 2024 3 15 12 0)
      \<lparr>dr_start = None, dr_end = Some (at_minute 2024 3 15 11 0)\<rparr>"
proof -
  let ?t = "at_minute 2024 3 15 11 0"
  let ?dr = "\<lparr>dr_start = Some ?t, dr_end = Some ?t\<rparr>"
  note w = range_filter_inclusive [of "[logger_A, logger_B]" ?dr logger_A ?t]
  have spec: "range_filter_spec u ?dr \<longleftrightarrow> valueOf ?t \<le> valueOf u \<and> valueOf u \<le> valueOf ?t" for u
    using range_filter_inclusive [of "[logger_A, logger_B]" ?dr logger_A u] by simp
  from w have "mergedData [logger_A, logger_B] ?dr =
      filter (\<lambda>row. range_filter_spec (row_timestamp row) ?dr) (map snd (merge_all [logger_A, logger_B]))"
    by blast
  then have rows: "mergedData [logger_A, logger_B] ?dr =
     [\<lparr>row_timeLabel = ''15/03 11:00'', row_timestamp = ?t, row_cols = [(''A.csv'', 21)]\<rparr>]"
    by (simp add: merge_all_A_B spec valueOf_examples)
  from w have "resampled_rows ?dr logger_A =
      filter (\<lambda>r. range_filter_spec (timestamp r) ?dr) (resampled logger_A)"
    by blast
  then have table: "resampled_rows ?dr logger_A =
     [\<lparr>timestamp = ?t, temperature = 21, timeLabel = ''15/03/2024 11:00''\<rparr>]"
    by (simp add: resampled_loggers spec valueOf_examples)
  have "range_filter_spec ?t ?dr"
    by (simp add: spec)
  moreover have "\<not> range_filter_spec (at_minute 2024 3 15 10 0) \<lparr>dr_start = Some ?t, dr_end = None\<rparr>"
    by (simp add: range_filter_spec_def valueOf_examples)
  moreover have "\<not> range_filter_spec (at_minute 2024 3 15 12 0) \<lparr>dr_start = None, dr_end = Some ?t\<rparr>"
    by (simp add: range_filter_spec_def valueOf_examples)
  ultimately show ?thesis
    using rows table by simp
qed

text \<open>
  C6. With both bounds absent the chart rows are the merged rows unchanged (and the table
  rows the resampled samples unchanged); with only \<open>end\<close> set there is no lower bound, with
  only \<open>start\<close> set no upper bound.
\<close>

theorem range_filter_identity:
  "mergedData ss \<lparr>dr_start = None, dr_end = None\<rparr> = map snd (merge_all ss) \<and>
   resampled_rows \<lparr>dr_start = None, dr_end = None\<rparr> s = resampled s \<and>
   mergedData ss \<lparr>dr_start = None, dr_end = Some e\<rparr> =
     filter (\<lambda>row. valueOf (row_timestamp row) \<le> valueOf e) (map snd (merge_all ss)) \<and>
   mergedData ss \<lparr>dr_start = Some b, dr_end = None\<rparr> =
     filter (\<lambda>row. valueOf b \<le> valueOf (row_timestamp row)) (map snd (merge_all ss))"
proof -
  have "mergedData ss \<lparr>dr_start = None, dr_end = None\<rparr> = map snd (merge_all ss)"
    by (simp add: mergedData_def)
  moreover have "resampled_rows \<lparr>dr_start = None, dr_end = None\<rparr> s = resampled s"
    by (simp add: resampled_rows_def)
  moreover have "mergedData ss \<lparr>dr_start = None, dr_end = Some e\<rparr> =
     filter (\<lambda>row. valueOf (row_timestamp row) \<le> valueOf e) (map snd (merge_all ss))"
    by (simp add: mergedData_filter range_filter_spec_def)
  moreover have "mergedData ss \<lparr>dr_start = Some b, dr_end = None\<rparr> =
     filter (\<lambda>row. valueOf b \<le> valueOf (row_timestamp row)) (map snd (merge_all ss))"
    by (simp add: mergedData_filter range_filter_spec_def)
  ultimately show ?thesis by blast
qed

theorem range_filter_identity_witness:
  "mergedData [logger_A, logger_B] \<lparr>dr_start = None, dr_end = None\<rparr> =
     [\<lparr>row_timeLabel = ''15/03 10:00'', row_timestamp = at_minute 2024 3 15 10 0,
       row_cols = [(''A.csv'', 20), (''B.csv'', 22)]\<rparr>,
      \<lparr>row_timeLabel = ''15/03 11:00'', row_timestamp = at_minute 2024 3 15 11 0,
       row_cols = [(''A.csv'', 21)]\<rparr>,
      \<lparr>row_timeLabel = ''15/03 12:00'', row_timestamp = at_minute 2024 3 15 12 0,
       row_cols = [(''B.csv'', 23)]\<rparr>] \<and>
   map row_timeLabel
     (mergedData [logger_A, logger_B] \<lparr>dr_start = None, dr_end = Some (at_minute 2024 3 15 10 0)\<rparr>) =
     [''15/03 10:00''] \<and>
   map row_timeLabel
     (mergedData [logger_A, logger_B] \<lparr>dr_start = Some (at_minute 2024 3 15 11 0), dr_end = None\<rparr>) =
     [''15/03 11:00'', ''15/03 12:00'']"
  using range_filter_identity
    [of "[logger_A, logger_B]" logger_A "at_minute 2024 3 15 10 0" "at_minute 2024 3 15 11 0"]
  by (simp add: merge_all_A_B valueOf_examples)

section \<open>Alignment\<close>

text \<open>
  The two loops visit the samples in the order of \<open>traversal\<close>; the facts about the \<open>Map\<close>
  are proved by induction on the visited list, from its end.
\<close>

lemma fold_traversal:
  "fold (\<lambda>s all. fold (merge_sample (name s)) (data s) all) ss acc =
   fold (\<lambda>p. merge_sample (fst p) (snd p)) (traversal ss) acc"
  by (induction ss arbitrary: acc) (simp_all add: traversal_def fold_map comp_def)

lemma merge_all_traversal:
  "merge_all ss = fold (\<lambda>p. merge_sample (fst p) (snd p)) (traversal ss) []"
  by (simp add: merge_all_def fold_traversal)

lemma merge_all_merge_from: "merge_all ss = merge_from (traversal ss)"
  by (simp add: merge_all_traversal merge_from_def)

lemma merge_from_snoc: "merge_from (xs @ [x]) = merge_sample (fst x) (snd x) (merge_from xs)"
  by (simp add: merge_from_def)

lemma merge_from_Nil: "merge_from [] = []"
  by (simp add: merge_from_def)

lemma map_fst_map_entry: "map fst (AList.map_entry k f xs) = map fst xs"
  by (induction xs) auto

lemma keys_merge_sample:
  "map fst (merge_sample nm d all) =
     (if timeLabel d \<in> set (map fst all) then map fst all else map fst all @ [timeLabel d])"
  by (auto simp: merge_sample_def Let_def map_fst_map_entry map_of_eq_None_iff)

lemma set_first_occurrences: "set (first_occurrences xs) = set xs"
  by (induction xs) auto

lemma distinct_first_occurrences: "distinct (first_occurrences xs)"
  by (induction xs) (auto simp: set_first_occurrences)

lemma first_occurrences_snoc:
  "first_occurrences (xs @ [y]) =
     (if y \<in> set xs then first_occurrences xs else first_occurrences xs @ [y])"
  by (induction xs) (auto simp: set_first_occurrences)

lemma keys_fold:
  "map fst (fold (\<lambda>p. merge_sample (fst p) (snd p)) xs []) =
     first_occurrences (map (\<lambda>p. timeLabel (snd p)) xs)"
proof (induction xs rule: rev_induct)
  case Nil
  show ?case by simp
next
  case (snoc x xs)
  then show ?case
    by (simp add: keys_merge_sample first_occurrences_snoc set_first_occurrences)
qed

lemma keys_merge_from:
  "map fst (merge_from xs) = first_occurrences (map (\<lambda>p. timeLabel (snd p)) xs)"
  by (simp add: merge_from_def keys_fold)

lemma distinct_keys_merge_from: "distinct (map fst (merge_from xs))"
  by (simp add: keys_merge_from distinct_first_occurrences)

lemma map_of_merge_from_None:
  "map_of (merge_from xs) l = None \<longleftrightarrow> l \<notin> (\<lambda>p. timeLabel (snd p)) ` set xs"
proof -
  have "set (map fst (merge_from xs)) = (\<lambda>p. timeLabel (snd p)) ` set xs"
    by (simp only: keys_merge_from set_first_occurrences set_map)
  then show ?thesis
    by (simp add: map_of_eq_None_iff)
qed

lemma map_of_merge_sample:
  "map_of (merge_sample nm d all) l =
     (if l = timeLabel d
      then Some ((case map_of all l of
                    None \<Rightarrow> \<lparr>row_timeLabel = timeLabel d, row_timestamp = timestamp d, row_cols = []\<rparr>
                  | Some r \<Rightarrow> r)
                 \<lparr>row_cols := AList.update nm (temperature d)
                    (row_cols (case map_of all l of
                    None \<Rightarrow> \<lparr>row_timeLabel = timeLabel d, row_timestamp = timestamp d, row_cols = []\<rparr>
                  | Some r \<Rightarrow> r))\<rparr>)
      else map_of all l)"
  by (auto simp: merge_sample_def Let_def AList.map_of_map_entry map_add_def split: option.splits)

lemma find_snoc:
  "find P (xs @ [x]) = (case find P xs of None \<Rightarrow> (if P x then Some x else None) | Some y \<Rightarrow> Some y)"
  by (induction xs) auto

lemma row_label:
  "map_of (merge_from xs) l = Some r \<Longrightarrow> row_timeLabel r = l"
proof (induction xs arbitrary: r rule: rev_induct)
  case Nil
  then show ?case by (simp add: merge_from_Nil)
next
  case (snoc x xs)
  then show ?case
    by (auto simp: merge_from_snoc map_of_merge_sample split: if_splits option.splits)
qed

lemma row_first_timestamp:
  "map_of (merge_from xs) l = Some r \<Longrightarrow>
     \<exists>p. find (\<lambda>p. timeLabel (snd p) = l) xs = Some p \<and> row_timestamp r = timestamp (snd p)"
proof (induction xs arbitrary: r rule: rev_induct)
  case Nil
  then show ?case by (simp add: merge_from_Nil)
next
  case (snoc x xs)
  show ?case
  proof (cases "map_of (merge_from xs) l")
    case None
    then have "l \<notin> (\<lambda>p. timeLabel (snd p)) ` set xs"
      by (simp add: map_of_merge_from_None)
    then have nf: "find (\<lambda>p. timeLabel (snd p) = l) xs = None"
      by (force simp: find_None_iff)
    from snoc.prems None have "l = timeLabel (snd x)" "row_timestamp r = timestamp (snd x)"
      by (auto simp: merge_from_snoc map_of_merge_sample split: if_splits)
    with nf show ?thesis by (simp add: find_snoc)
  next
    case (Some r0)
    from snoc.IH [OF Some] obtain p where
      p: "find (\<lambda>p. timeLabel (snd p) = l) xs = Some p" "row_timestamp r0 = timestamp (snd p)"
      by blast
    from snoc.prems Some have "row_timestamp r = row_timestamp r0"
      by (auto simp: merge_from_snoc map_of_merge_sample split: if_splits)
    with p show ?thesis by (simp add: find_snoc)
  qed
qed

lemma row_column:
  "map_of (merge_from xs) l = Some r \<Longrightarrow>
     map_of (row_cols r) nm =
       (if filter (\<lambda>p. fst p = nm \<and> timeLabel (snd p) = l) xs = [] then None
        else Some (temperature (snd (last (filter (\<lambda>p. fst p = nm \<and> timeLabel (snd p) = l) xs)))))"
proof (induction xs arbitrary: r rule: rev_induct)
  case Nil
  then show ?case by (simp add: merge_from_Nil)
next
  case (snoc x xs)
  show ?case
  proof (cases "map_of (merge_from xs) l")
    case None
    then have "l \<notin> (\<lambda>p. timeLabel (snd p)) ` set xs"
      by (simp add: map_of_merge_from_None)
    then have nf: "filter (\<lambda>p. fst p = nm \<and> timeLabel (snd p) = l) xs = []"
      by (force simp: filter_empty_conv)
    from snoc.prems None have "l = timeLabel (snd x)"
      "row_cols r = [(fst x, temperature (snd x))]"
      by (auto simp: merge_from_snoc map_of_merge_sample split: if_splits)
    with nf show ?thesis by auto
  next
    case (Some r0)
    note ih = snoc.IH [OF Some]
    show ?thesis
    proof (cases "l = timeLabel (snd x)")
      case True
      with snoc.prems Some have "row_cols r = AList.update (fst x) (temperature (snd x)) (row_cols r0)"
        by (auto simp: merge_from_snoc map_of_merge_sample)
      with ih True show ?thesis
        by (auto simp: AList.update_conv')
    next
      case False
      with snoc.prems Some have "r = r0"
        by (auto simp: merge_from_snoc map_of_merge_sample)
      with ih False show ?thesis by auto
    qed
  qed
qed

lemma map_of_entry: "distinct (map fst M) \<Longrightarrow> (l, r) \<in> set M \<Longrightarrow> map_of M l = Some r"
  by simp

lemma entry_label: "(l, r) \<in> set (merge_from xs) \<Longrightarrow> row_timeLabel r = l"
  using row_label [of xs l r] distinct_keys_merge_from [of xs] by simp

lemma labels_of_rows: "map row_timeLabel (map snd (merge_from xs)) = map fst (merge_from xs)"
  by (auto simp: entry_label)

lemma filter_key:
  "distinct (map fst M) \<Longrightarrow> map_of M l = Some r \<Longrightarrow> filter (\<lambda>e. fst e = l) M = [(l, r)]"
proof (induction M)
  case Nil
  then show ?case by simp
next
  case (Cons e M)
  show ?case
  proof (cases "fst e = l")
    case True
    with Cons.prems have "e = (l, r)" by (cases e) simp
    moreover from Cons.prems True have "l \<notin> fst ` set M" by auto
    then have "filter (\<lambda>e. fst e = l) M = []"
      by (auto simp: filter_empty_conv)
    ultimately show ?thesis by simp
  next
    case False
    with Cons show ?thesis by (cases e) simp
  qed
qed

lemma the_row_of_label:
  assumes "map_of (merge_from xs) l = Some r"
  shows "filter (\<lambda>r. row_timeLabel r = l) (map snd (merge_from xs)) = [r]"
proof -
  have "filter (\<lambda>r. row_timeLabel r = l) (map snd (merge_from xs)) =
        map snd (filter (\<lambda>e. row_timeLabel (snd e) = l) (merge_from xs))"
    by (simp add: filter_map comp_def)
  also have "filter (\<lambda>e. row_timeLabel (snd e) = l) (merge_from xs) =
             filter (\<lambda>e. fst e = l) (merge_from xs)"
    by (rule filter_cong) (auto simp: entry_label)
  also have "\<dots> = [(l, r)]"
    using assms by (simp add: filter_key distinct_keys_merge_from)
  finally show ?thesis by simp
qed

lemma traversal_Cons:
  "traversal (s # ss) = map (\<lambda>d. (name s, d)) (data s) @ traversal ss"
  by (simp add: traversal_def)

lemma traversal_other_names:
  "nm \<notin> name ` set ss \<Longrightarrow> filter (\<lambda>p. fst p = nm) (traversal ss) = []"
  by (induction ss) (auto simp: traversal_Cons traversal_def filter_empty_conv)

lemma traversal_of_name:
  "distinct (map name ss) \<Longrightarrow> s \<in> set ss \<Longrightarrow>
     filter (\<lambda>p. fst p = name s) (traversal ss) = map (\<lambda>d. (name s, d)) (data s)"
proof (induction ss)
  case Nil
  then show ?case by simp
next
  case (Cons a ss)
  show ?case
  proof (cases "s = a")
    case True
    with Cons.prems have "name s \<notin> name ` set ss" by simp
    then have "filter (\<lambda>p. fst p = name s) (traversal ss) = []"
      by (rule traversal_other_names)
    with True show ?thesis by (simp add: traversal_Cons filter_map comp_def)
  next
    case False
    with Cons.prems have "s \<in> set ss" "name a \<noteq> name s" by auto
    with Cons show ?thesis by (simp add: traversal_Cons filter_map comp_def)
  qed
qed

lemma samples_of_name_and_label:
  assumes "distinct (map name ss)" "s \<in> set ss"
  shows "filter (\<lambda>p. fst p = name s \<and> timeLabel (snd p) = l) (traversal ss) =
         map (\<lambda>d. (name s, d)) (filter (\<lambda>e. timeLabel e = l) (data s))"
proof -
  have "filter (\<lambda>p. fst p = name s \<and> timeLabel (snd p) = l) (traversal ss) =
        filter (\<lambda>p. timeLabel (snd p) = l) (filter (\<lambda>p. fst p = name s) (traversal ss))"
    by (simp add: conj_commute)
  also have "\<dots> = filter (\<lambda>p. timeLabel (snd p) = l) (map (\<lambda>d. (name s, d)) (data s))"
    using assms by (simp only: traversal_of_name)
  finally show ?thesis by (simp add: filter_map comp_def)
qed

lemma label_in_traversal:
  "s \<in> set ss \<Longrightarrow> d \<in> set (data s) \<Longrightarrow> timeLabel d \<in> (\<lambda>p. timeLabel (snd p)) ` set (traversal ss)"
  by (force simp: traversal_def)

lemma labels_of_traversal:
  "map (\<lambda>p. timeLabel (snd p)) (traversal ss) = concat (map (\<lambda>s. map timeLabel (data s)) ss)"
  by (induction ss) (simp_all add: traversal_Cons traversal_def comp_def)

lemma samples_of_traversal: "map snd (traversal ss) = concat (map data ss)"
  by (induction ss) (simp_all add: traversal_Cons traversal_def comp_def)

lemma row_labels_first_occurrences:
  "map row_timeLabel (map snd (merge_all ss)) =
     first_occurrences (concat (map (\<lambda>s. map timeLabel (data s)) ss))"
  by (simp only: merge_all_merge_from labels_of_rows keys_merge_from labels_of_traversal)

lemma find_map_snd:
  "find P (map f xs) = map_option f (find (\<lambda>x. P (f x)) xs)"
  by (induction xs) auto

lemma row_first_sample:
  assumes "r \<in> set (map snd (merge_all ss))"
  shows "\<exists>d. find (\<lambda>d. timeLabel d = row_timeLabel r) (concat (map data ss)) = Some d \<and>
             row_timestamp r = timestamp d"
proof -
  from assms obtain l where e: "(l, r) \<in> set (merge_from (traversal ss))"
    by (auto simp: merge_all_merge_from)
  then have m: "map_of (merge_from (traversal ss)) l = Some r"
    by (simp add: distinct_keys_merge_from)
  from e have l: "row_timeLabel r = l" by (rule entry_label)
  from row_first_timestamp [OF m] obtain p where
    p: "find (\<lambda>p. timeLabel (snd p) = l) (traversal ss) = Some p" "row_timestamp r = timestamp (snd p)"
    by blast
  have "find (\<lambda>d. timeLabel d = l) (concat (map data ss)) = Some (snd p)"
    using p(1) by (simp add: samples_of_traversal [symmetric] find_map_snd)
  with p(2) l show ?thesis by simp
qed

text \<open>
  C3, as the code has it. For a sample \<open>d\<close> of a series \<open>s\<close> of the batch, exactly one
  merged row carries the label of \<open>d\<close>: it is the one row of that label that \<open>mergedData\<close>
  returns when no bound is set, and with a bound it is returned iff the filter accepts its
  timestamp. That row has a value under \<open>name s\<close>: the temperature of the last sample
  visited under that name and label, in whatever series of that name. When the names of
  the batch are distinct this is the last sample of \<open>s\<close> itself with that label.
\<close>

theorem merge_complete_last_write:
  assumes "s \<in> set ss" and "d \<in> set (data s)"
  shows "\<exists>r. filter (\<lambda>r. row_timeLabel r = timeLabel d) (map snd (merge_all ss)) = [r] \<and>
             filter (\<lambda>r. row_timeLabel r = timeLabel d)
               (mergedData ss \<lparr>dr_start = None, dr_end = None\<rparr>) = [r] \<and>
             filter (\<lambda>r. row_timeLabel r = timeLabel d) (mergedData ss dr) =
               (if range_filter_spec (row_timestamp r) dr then [r] else []) \<and>
             map_of (row_cols r) (name s) =
               Some (temperature (snd (last (filter
                 (\<lambda>p. fst p = name s \<and> timeLabel (snd p) = timeLabel d) (traversal ss))))) \<and>
             (distinct (map name ss) \<longrightarrow>
                map_of (row_cols r) (name s) =
                  Some (temperature (last (filter (\<lambda>e. timeLabel e = timeLabel d) (data s)))))"
proof -
  let ?l = "timeLabel d"
  let ?own = "filter (\<lambda>e. timeLabel e = ?l) (data s)"
  let ?named = "filter (\<lambda>p. fst p = name s \<and> timeLabel (snd p) = ?l) (traversal ss)"
  from assms have "map_of (merge_from (traversal ss)) ?l \<noteq> None"
    by (simp only: map_of_merge_from_None label_in_traversal not_not)
  then obtain r where r: "map_of (merge_from (traversal ss)) ?l = Some r"
    by blast
  have one: "filter (\<lambda>r. row_timeLabel r = ?l) (map snd (merge_all ss)) = [r]"
    using the_row_of_label [OF r] by (simp add: merge_all_merge_from)
  have ranged: "filter (\<lambda>r. row_timeLabel r = ?l) (mergedData ss dr') =
      (if range_filter_spec (row_timestamp r) dr' then [r] else [])" for dr'
  proof -
    have "filter (\<lambda>r. row_timeLabel r = ?l) (mergedData ss dr') =
          filter (\<lambda>row. range_filter_spec (row_timestamp row) dr')
            (filter (\<lambda>r. row_timeLabel r = ?l) (map snd (merge_all ss)))"
      by (simp add: mergedData_filter conj_commute)
    then show ?thesis by (simp add: one)
  qed
  have unbounded: "filter (\<lambda>r. row_timeLabel r = ?l)
      (mergedData ss \<lparr>dr_start = None, dr_end = None\<rparr>) = [r]"
    by (simp add: ranged range_filter_spec_def)
  from assms have "(name s, d) \<in> set (traversal ss)"
    by (force simp: traversal_def)
  then have named: "?named \<noteq> []"
    by (force simp: filter_empty_conv)
  with row_column [OF r, of "name s"]
  have general: "map_of (row_cols r) (name s) = Some (temperature (snd (last ?named)))"
    by simp
  have "map_of (row_cols r) (name s) = Some (temperature (last ?own))"
    if dist: "distinct (map name ss)"
  proof -
    from assms(2) have own: "?own \<noteq> []"
      by (auto simp: filter_empty_conv)
    have "?named = map (\<lambda>d. (name s, d)) ?own"
      by (rule samples_of_name_and_label [OF dist assms(1)])
    with general own show ?thesis by (simp add: last_map)
  qed
  with one unbounded ranged [of dr] general show ?thesis by blast
qed

theorem merge_complete_last_write_witness:
  "logger_C \<in> set [logger_A, logger_C] \<and>
   \<lparr>timestamp = at_minute 2023 3 15 10 0, temperature = 5, timeLabel = ''15/03 10:00''\<rparr>
     \<in> set (data logger_C) \<and>
   distinct (map name [logger_A, logger_C]) \<and>
   (\<exists>r. filter (\<lambda>r. row_timeLabel r = ''15/03 10:00'')
          (mergedData [logger_A, logger_C] \<lparr>dr_start = None, dr_end = None\<rparr>) = [r] \<and>
        filter (\<lambda>r. row_timeLabel r = ''15/03 10:00'')
          (mergedData [logger_A, logger_C]
             \<lparr>dr_start = Some (at_minute 2024 3 15 11 0), dr_end = None\<rparr>) = [] \<and>
        row_timestamp r = at_minute 2024 3 15 10 0 \<and>
        map_of (row_cols r) ''A.csv'' = Some 20 \<and>
        map_of (row_cols r) ''C.csv'' = Some 7)"
proof -
  let ?d = "\<lparr>timestamp = at_minute 2023 3 15 10 0, temperature = 5, timeLabel = ''15/03 10:00''\<rparr>"
  let ?dr = "\<lparr>dr_start = Some (at_minute 2024 3 15 11 0), dr_end = None\<rparr>"
  let ?ss = "[logger_A, logger_C]"
  have a: "logger_C \<in> set ?ss" by simp
  have b: "?d \<in> set (data logger_C)" by (simp add: data_logger_C)
  have c: "distinct (map name ?ss)" by (simp add: name_loggers)
  have m: "map snd (merge_all ?ss) =
     [\<lparr>row_timeLabel = ''15/03 10:00'', row_timestamp = at_minute 2024 3 15 10 0,
        row_cols = [(''A.csv'', 20), (''C.csv'', 7)]\<rparr>,
      \<lparr>row_timeLabel = ''15/03 11:00'', row_timestamp = at_minute 2024 3 15 11 0,
        row_cols = [(''A.csv'', 21)]\<rparr>]"
    by (simp add: merge_all_def merge_sample_def data_logger_A data_logger_C name_loggers Let_def)
  from merge_complete_last_write [OF a b, of ?dr] c obtain r where
    r: "filter (\<lambda>r. row_timeLabel r = timeLabel ?d) (map snd (merge_all ?ss)) = [r]"
       "filter (\<lambda>r. row_timeLabel r = timeLabel ?d)
          (mergedData ?ss \<lparr>dr_start = None, dr_end = None\<rparr>) = [r]"
       "filter (\<lambda>r. row_timeLabel r = timeLabel ?d) (mergedData ?ss ?dr) =
          (if range_filter_spec (row_timestamp r) ?dr then [r] else [])"
       "map_of (row_cols r) (name logger_C) =
          Some (temperature (last (filter (\<lambda>e. timeLabel e = timeLabel ?d) (data logger_C))))"
    by blast
  from r(1) have req: "r = \<lparr>row_timeLabel = ''15/03 10:00'', row_timestamp = at_minute 2024 3 15 10 0,
        row_cols = [(''A.csv'', 20), (''C.csv'', 7)]\<rparr>"
    by (simp add: m)
  from r(2) have p1: "filter (\<lambda>r. row_timeLabel r = ''15/03 10:00'')
          (mergedData ?ss \<lparr>dr_start = None, dr_end = None\<rparr>) = [r]"
    by simp
  from r(3) have p2: "filter (\<lambda>r. row_timeLabel r = ''15/03 10:00'') (mergedData ?ss ?dr) = []"
    by (simp add: req range_filter_spec_def valueOf_examples)
  from r(4) have p3: "map_of (row_cols r) ''C.csv'' = Some 7"
    by (simp add: data_logger_C name_loggers)
  from req have p4: "row_timestamp r = at_minute 2024 3 15 10 0" "map_of (row_cols r) ''A.csv'' = Some 20"
    by simp_all
  from a b c p1 p2 p3 p4 show ?thesis by blast
qed

text \<open>
  C3 as stated, for any batch, fails when two files bear one name: the row of 10:00 holds
  under that name the reading of the second file, 3, and not the last reading of the first
  file with that label, 2.
\<close>

theorem merge_last_write_per_series_counterexample:
  "dup_first \<in> set [dup_first, dup_second] \<and>
   \<lparr>timestamp = at_minute 2024 3 15 10 0, temperature = 2, timeLabel = ''15/03 10:00''\<rparr>
     \<in> set (data dup_first) \<and>
   mergedData [dup_first, dup_second] \<lparr>dr_start = None, dr_end = None\<rparr> =
     [\<lparr>row_timeLabel = ''15/03 10:00'', row_timestamp = at_minute 2024 3 15 10 0,
       row_cols = [(''A.csv'', 3)]\<rparr>] \<and>
   temperature (last (filter (\<lambda>e. timeLabel e = ''15/03 10:00'') (data dup_first))) = 2 \<and>
   \<not> (\<exists>r. filter (\<lambda>r. row_timeLabel r = ''15/03 10:00'')
            (mergedData [dup_first, dup_second] \<lparr>dr_start = None, dr_end = None\<rparr>) = [r] \<and>
          map_of (row_cols r) (name dup_first) =
            Some (temperature (last (filter (\<lambda>e. timeLabel e = ''15/03 10:00'') (data dup_first)))))"
  by (simp add: mergedData_def merge_all_dups data_dups name_dups)

lemma unsorted_rows:
  "\<not> sorted (map (\<lambda>row. valueOf (row_timestamp row))
        (mergedData [logger_B, logger_A] \<lparr>dr_start = None, dr_end = None\<rparr>))"
  by (simp add: mergedData_def merge_all_B_A valueOf_examples)

text \<open>
  C4. The labels of the merged rows are the labels of the samples in series-major,
  sample-minor order, each at its first occurrence; the range filter runs over that list
  and keeps the survivors in their order; and the rows are not sorted by time: the batch
  of logger B before logger A gives 10:00, 12:00, 11:00.
\<close>

theorem rows_in_first_encounter_order:
  "map row_timeLabel (map snd (merge_all ss)) =
     first_occurrences (concat (map (\<lambda>s. map timeLabel (data s)) ss)) \<and>
   mergedData ss dr =
     filter (\<lambda>row. range_filter_spec (row_timestamp row) dr) (map snd (merge_all ss)) \<and>
   \<not> sorted (map (\<lambda>row. valueOf (row_timestamp row))
        (mergedData [logger_B, logger_A] \<lparr>dr_start = None, dr_end = None\<rparr>))"
  using row_labels_first_occurrences [of ss] mergedData_filter [of ss dr] unsorted_rows
  by simp

theorem rows_in_first_encounter_order_witness:
  "map row_timeLabel (map snd (merge_all [logger_A, logger_B])) =
     [''15/03 10:00'', ''15/03 11:00'', ''15/03 12:00''] \<and>
   first_occurrences (concat (map (\<lambda>s. map timeLabel (data s)) [logger_A, logger_B])) =
     [''15/03 10:00'', ''15/03 11:00'', ''15/03 12:00''] \<and>
   map row_timeLabel (mergedData [logger_B, logger_A]
      \<lparr>dr_start = Some (at_minute 2024 3 15 11 0), dr_end = None\<rparr>) =
     [''15/03 12:00'', ''15/03 11:00'']"
proof -
  let ?dr = "\<lparr>dr_start = Some (at_minute 2024 3 15 11 0), dr_end = None\<rparr>"
  have "map row_timeLabel (map snd (merge_all [logger_A, logger_B])) =
        first_occurrences (concat (map (\<lambda>s. map timeLabel (data s)) [logger_A, logger_B]))"
    using rows_in_first_encounter_order [of "[logger_A, logger_B]" ?dr] by blast
  moreover have "map row_timeLabel (map snd (merge_all [logger_A, logger_B])) =
        [''15/03 10:00'', ''15/03 11:00'', ''15/03 12:00'']"
    by (simp add: merge_all_A_B)
  moreover have "mergedData [logger_B, logger_A] ?dr =
        filter (\<lambda>row. range_filter_spec (row_timestamp row) ?dr) (map snd (merge_all [logger_B, logger_A]))"
    using rows_in_first_encounter_order [of "[logger_B, logger_A]" ?dr] by blast
  then have "map row_timeLabel (mergedData [logger_B, logger_A] ?dr) = [''15/03 12:00'', ''15/03 11:00'']"
    by (simp add: merge_all_B_A range_filter_spec_def valueOf_examples)
  ultimately show ?thesis by simp
qed

lemma label_ignores_year: "format_DD_MM_HH_mm (t\<lparr>year := y\<rparr>) = format_DD_MM_HH_mm t"
  by (simp add: format_DD_MM_HH_mm_def)

lemma labels_of_shaped:
  "map timeLabel (shaped serie) = map (\<lambda>d. format_DD_MM_HH_mm (timestamp d)) serie"
  by (simp add: shaped_def)

text \<open>
  C10. The timestamp of a merged row is that of the first sample, in traversal order, whose
  label is the row's label, and the range filter keeps the row iff it accepts that
  timestamp. The chart label of a shaped sample is \<open>DD/MM HH:mm\<close> of its timestamp, which
  does not change with the year: samples a year apart share one row.
\<close>

theorem row_timestamp_first_encounter:
  "(r \<in> set (map snd (merge_all ss)) \<longrightarrow>
      (\<exists>d. find (\<lambda>d. timeLabel d = row_timeLabel r) (concat (map data ss)) = Some d \<and>
           row_timestamp r = timestamp d \<and>
           (r \<in> set (mergedData ss dr) \<longleftrightarrow> range_filter_spec (timestamp d) dr))) \<and>
   map timeLabel (shaped serie) = map (\<lambda>d. format_DD_MM_HH_mm (timestamp d)) serie \<and>
   format_DD_MM_HH_mm (t\<lparr>year := y\<rparr>) = format_DD_MM_HH_mm t"
proof -
  have "\<exists>d. find (\<lambda>d. timeLabel d = row_timeLabel r) (concat (map data ss)) = Some d \<and>
           row_timestamp r = timestamp d \<and>
           (r \<in> set (mergedData ss dr) \<longleftrightarrow> range_filter_spec (timestamp d) dr)"
    if r: "r \<in> set (map snd (merge_all ss))"
  proof -
    from row_first_sample [OF r] obtain d where
      d: "find (\<lambda>d. timeLabel d = row_timeLabel r) (concat (map data ss)) = Some d"
         "row_timestamp r = timestamp d"
      by blast
    from r d(2) have "r \<in> set (mergedData ss dr) \<longleftrightarrow> range_filter_spec (timestamp d) dr"
      by (simp add: mergedData_filter)
    with d show ?thesis by blast
  qed
  then show ?thesis
    by (simp add: label_ignores_year labels_of_shaped)
qed

theorem row_timestamp_first_encounter_witness:
  "map snd (merge_all [logger_C]) =
     [\<lparr>row_timeLabel = ''15/03 10:00'', row_timestamp = at_minute 2023 3 15 10 0,
       row_cols = [(''C.csv'', 7)]\<rparr>] \<and>
   find (\<lambda>d. timeLabel d = ''15/03 10:00'') (concat (map data [logger_C])) =
     Some \<lparr>timestamp = at_minute 2023 3 15 10 0, temperature = 5, timeLabel = ''15/03 10:00''\<rparr> \<and>
   format_DD_MM_HH_mm (at_minute 2024 3 15 10 0) = format_DD_MM_HH_mm (at_minute 2023 3 15 10 0) \<and>
   valueOf (at_minute 2024 3 15 10 0) - valueOf (at_minute 2023 3 15 10 0) = 366 * 86400000 \<and>
   range_filter_spec (at_minute 2024 3 15 10 0) \<lparr>dr_start = Some (at_minute 2024 3 15 0 0), dr_end = None\<rparr> \<and>
   mergedData [logger_C] \<lparr>dr_start = Some (at_minute 2024 3 15 0 0), dr_end = None\<rparr> = []"
proof -
  let ?r = "\<lparr>row_timeLabel = ''15/03 10:00'', row_timestamp = at_minute 2023 3 15 10 0,
       row_cols = [(''C.csv'', 7)]\<rparr>"
  let ?dr = "\<lparr>dr_start = Some (at_minute 2024 3 15 0 0), dr_end = None\<rparr>"
  note w = row_timestamp_first_encounter
    [of ?r "[logger_C]" ?dr "[]" 2024 "at_minute 2023 3 15 10 0"]
  have rows: "map snd (merge_all [logger_C]) = [?r]"
    by (simp add: merge_all_C)
  then have "?r \<in> set (map snd (merge_all [logger_C]))"
    by simp
  with w obtain d where
    d: "find (\<lambda>d. timeLabel d = row_timeLabel ?r) (concat (map data [logger_C])) = Some d"
       "?r \<in> set (mergedData [logger_C] ?dr) \<longleftrightarrow> range_filter_spec (timestamp d) ?dr"
    by blast
  from d(1) have first: "d = \<lparr>timestamp = at_minute 2023 3 15 10 0, temperature = 5, timeLabel = ''15/03 10:00''\<rparr>"
    by (simp add: data_logger_C)
  with d(2) have out: "?r \<notin> set (mergedData [logger_C] ?dr)"
    by (simp add: range_filter_spec_def valueOf_examples)
  have "set (mergedData [logger_C] ?dr) \<subseteq> set (map snd (merge_all [logger_C]))"
    by (simp add: mergedData_filter)
  with out rows have empty: "mergedData [logger_C] ?dr = []"
    by (cases "mergedData [logger_C] ?dr") auto
  from w have "format_DD_MM_HH_mm ((at_minute 2023 3 15 10 0)\<lparr>year := 2024\<rparr>) =
               format_DD_MM_HH_mm (at_minute 2023 3 15 10 0)"
    by blast
  then have same: "format_DD_MM_HH_mm (at_minute 2024 3 15 10 0) = format_DD_MM_HH_mm (at_minute 2023 3 15 10 0)"
    by (simp add: at_minute_def)
  have apart: "valueOf (at_minute 2024 3 15 10 0) - valueOf (at_minute 2023 3 15 10 0) = 366 * 86400000"
    by (simp add: valueOf_examples)
  have inside: "range_filter_spec (at_minute 2024 3 15 10 0) ?dr"
    by (simp add: range_filter_spec_def valueOf_examples)
  from d(1) first have "find (\<lambda>d. timeLabel d = ''15/03 10:00'') (concat (map data [logger_C])) =
     Some \<lparr>timestamp = at_minute 2023 3 15 10 0, temperature = 5, timeLabel = ''15/03 10:00''\<rparr>"
    by simp
  with rows same apart inside empty show ?thesis by blast
qed

section \<open>Visibility and statistics\<close>

text \<open>
  C5. The statistics shown are those of the first active series when exactly one series is
  active, and none otherwise; with three series of distinct names and two of them hidden,
  they are the statistics of the third.
\<close>

theorem stats_iff_one_active:
  "(length (activeSeries ss hidden) = 1 \<longrightarrow>
      showStats ss hidden = stats (activeSeries ss hidden ! 0)) \<and>
   (length (activeSeries ss hidden) \<noteq> 1 \<longrightarrow> showStats ss hidden = None) \<and>
   (distinct [name a, name b, name c] \<longrightarrow>
      showStats [a, b, c] [name a, name b] = stats c \<and>
      showStats [a, b, c] [name a, name c] = stats b \<and>
      showStats [a, b, c] [name b, name c] = stats a)"
  by (auto simp: showStats_def activeSeries_def)

theorem stats_iff_one_active_witness:
  "distinct [name logger_A, name logger_B, name logger_C] \<and>
   length (activeSeries [logger_A, logger_B, logger_C] [''A.csv'', ''B.csv'']) = 1 \<and>
   showStats (series viewing) (hiddenKeys viewing) = stats logger_C \<and>
   stats logger_C \<noteq> None \<and>
   length (activeSeries [logger_A, logger_B, logger_C] [''B.csv'']) = 2 \<and>
   showStats (series (toggleLine ''A.csv'' viewing)) (hiddenKeys (toggleLine ''A.csv'' viewing)) = None \<and>
   showStats (series (toggleLine ''A.csv'' (toggleLine ''A.csv'' viewing)))
     (hiddenKeys (toggleLine ''A.csv'' (toggleLine ''A.csv'' viewing))) = stats logger_C \<and>
   showStats [logger_A, logger_B, logger_C] [''A.csv'', ''B.csv'', ''C.csv''] = None"
proof -
  have d: "distinct [name logger_A, name logger_B, name logger_C]"
    by (simp add: name_loggers)
  have one: "length (activeSeries [logger_A, logger_B, logger_C] [''A.csv'', ''B.csv'']) = 1"
    by (simp add: activeSeries_def name_loggers)
  have two: "length (activeSeries [logger_A, logger_B, logger_C] [''B.csv'']) = 2"
    by (simp add: activeSeries_def name_loggers)
  have none: "length (activeSeries [logger_A, logger_B, logger_C] [''A.csv'', ''B.csv'', ''C.csv'']) = 0"
    by (simp add: activeSeries_def name_loggers)
  have v: "series viewing = [logger_A, logger_B, logger_C]" "hiddenKeys viewing = [''A.csv'', ''B.csv'']"
    by (simp_all add: viewing_def)
  have t1: "series (toggleLine ''A.csv'' viewing) = [logger_A, logger_B, logger_C]"
    "hiddenKeys (toggleLine ''A.csv'' viewing) = [''B.csv'']"
    by (simp_all add: toggleLine_def v)
  have t2: "series (toggleLine ''A.csv'' (toggleLine ''A.csv'' viewing)) = [logger_A, logger_B, logger_C]"
    "hiddenKeys (toggleLine ''A.csv'' (toggleLine ''A.csv'' viewing)) = [''B.csv'', ''A.csv'']"
    by (simp_all add: toggleLine_def v)
  have shown: "showStats [logger_A, logger_B, logger_C] [''A.csv'', ''B.csv''] = stats logger_C"
    using stats_iff_one_active [of "[logger_A, logger_B, logger_C]" "[''A.csv'', ''B.csv'']" logger_A logger_B logger_C] d
    by (simp add: name_loggers)
  have shown': "showStats [logger_A, logger_B, logger_C] [''B.csv'', ''A.csv''] = stats logger_C"
    using stats_iff_one_active [of "[logger_A, logger_B, logger_C]" "[''B.csv'', ''A.csv'']" logger_A logger_B logger_C]
    by (simp add: activeSeries_def name_loggers)
  have hidden2: "showStats [logger_A, logger_B, logger_C] [''B.csv''] = None"
    using stats_iff_one_active [of "[logger_A, logger_B, logger_C]" "[''B.csv'']" logger_A logger_B logger_C] two
    by simp
  have hidden0: "showStats [logger_A, logger_B, logger_C] [''A.csv'', ''B.csv'', ''C.csv''] = None"
    using stats_iff_one_active [of "[logger_A, logger_B, logger_C]" "[''A.csv'', ''B.csv'', ''C.csv'']" logger_A logger_B logger_C] none
    by simp
  show ?thesis
    using d one two shown shown' hidden2 hidden0
    by (simp add: v t1 t2 stats_loggers)
qed

text \<open>
  C8. Toggling a name removes it from the hidden names when it is among them and adds it
  when it is not; toggling twice gives back the same set of hidden names, and the
  membership of any other name never changes.
\<close>

theorem toggleLine_membership:
  "set (hiddenKeys (toggleLine nm st)) =
     (if nm \<in> set (hiddenKeys st) then set (hiddenKeys st) - {nm}
      else insert nm (set (hiddenKeys st))) \<and>
   set (hiddenKeys (toggleLine nm (toggleLine nm st))) = set (hiddenKeys st) \<and>
   (m \<noteq> nm \<longrightarrow> (m \<in> set (hiddenKeys (toggleLine nm st)) \<longleftrightarrow> m \<in> set (hiddenKeys st)))"
  by (auto simp: toggleLine_def)

theorem toggleLine_membership_witness:
  "hiddenKeys viewing = [''A.csv'', ''B.csv''] \<and>
   hiddenKeys (toggleLine ''A.csv'' viewing) = [''B.csv''] \<and>
   hiddenKeys (toggleLine ''C.csv'' viewing) = [''A.csv'', ''B.csv'', ''C.csv''] \<and>
   set (hiddenKeys (toggleLine ''A.csv'' (toggleLine ''A.csv'' viewing))) = {''A.csv'', ''B.csv''} \<and>
   ''B.csv'' \<in> set (hiddenKeys (toggleLine ''A.csv'' viewing))"
proof -
  have v: "hiddenKeys viewing = [''A.csv'', ''B.csv'']"
    by (simp add: viewing_def)
  have a: "hiddenKeys (toggleLine ''A.csv'' viewing) = [''B.csv'']"
    by (simp add: toggleLine_def v)
  have c: "hiddenKeys (toggleLine ''C.csv'' viewing) = [''A.csv'', ''B.csv'', ''C.csv'']"
    by (simp add: toggleLine_def v)
  have "set (hiddenKeys (toggleLine ''A.csv'' (toggleLine ''A.csv'' viewing))) = set (hiddenKeys viewing)"
    using toggleLine_membership [of "''A.csv''" viewing "''B.csv''"] by blast
  moreover have "''B.csv'' \<in> set (hiddenKeys (toggleLine ''A.csv'' viewing))"
    using toggleLine_membership [of "''A.csv''" viewing "''B.csv''"] by (simp add: v)
  ultimately show ?thesis
    using v a c by auto
qed

section \<open>Resampled view\<close>

lemma resampledBySeries_snoc:
  "resampledBySeries (ss @ [s]) dr = (resampledBySeries ss dr)(name s \<mapsto> resampled_rows dr s)"
  by (simp add: resampledBySeries_def)

lemma resampledBySeries_lookup:
  "resampledBySeries ss dr n = map_option (resampled_rows dr) (find (\<lambda>s. name s = n) (rev ss))"
proof (induction ss rule: rev_induct)
  case Nil
  show ?case by (simp add: resampledBySeries_def)
next
  case (snoc s ss)
  then show ?case by (simp add: resampledBySeries_snoc)
qed

lemma find_by_distinct_key:
  "distinct (map f xs) \<Longrightarrow> x \<in> set xs \<Longrightarrow> find (\<lambda>y. f y = f x) xs = Some x"
  by (induction xs) (auto simp: image_iff)

lemma resampledBySeries_dom: "dom (resampledBySeries ss dr) = name ` set ss"
  by (force simp: dom_def resampledBySeries_lookup find_None_iff)

lemma resampledBySeries_own:
  assumes "distinct (map name ss)" and "s \<in> set ss"
  shows "resampledBySeries ss dr (name s) = Some (resampled_rows dr s)"
proof -
  from assms have "find (\<lambda>y. name y = name s) (rev ss) = Some s"
    by (intro find_by_distinct_key) (simp_all add: rev_map [symmetric])
  then show ?thesis by (simp add: resampledBySeries_lookup)
qed

text \<open>
  C7, as the code has it. The mapping has an entry for the name of every series and for
  nothing else. The entry under a name is the resampled samples of the last series of that
  name, filtered by the Range Filter on each sample's timestamp, also when none is left;
  in a batch of distinct names the entry of a series is therefore its own filtered list.
  Hiding or showing a series changes neither the mapping nor the chart rows.
\<close>

theorem resampled_view_total:
  "dom (resampledBySeries ss dr) = name ` set ss \<and>
   resampledBySeries ss dr n =
     map_option (\<lambda>s. filter (\<lambda>r. range_filter_spec (timestamp r) dr) (resampled s))
       (find (\<lambda>s. name s = n) (rev ss)) \<and>
   (distinct (map name ss) \<longrightarrow> s \<in> set ss \<longrightarrow>
      resampledBySeries ss dr (name s) =
        Some (filter (\<lambda>r. range_filter_spec (timestamp r) dr) (resampled s))) \<and>
   resampledBySeries (series (toggleLine nm st)) (dateRange (toggleLine nm st)) =
     resampledBySeries (series st) (dateRange st) \<and>
   mergedData (series (toggleLine nm st)) (dateRange (toggleLine nm st)) =
     mergedData (series st) (dateRange st)"
proof -
  have "series (toggleLine nm st) = series st" "dateRange (toggleLine nm st) = dateRange st"
    by (simp_all add: toggleLine_def)
  moreover have "resampledBySeries ss dr n =
     map_option (\<lambda>s. filter (\<lambda>r. range_filter_spec (timestamp r) dr) (resampled s))
       (find (\<lambda>s. name s = n) (rev ss))"
    by (simp add: resampledBySeries_lookup resampled_rows_filter [abs_def])
  ultimately show ?thesis
    by (simp add: resampledBySeries_dom resampledBySeries_own resampled_rows_filter)
qed

theorem resampled_view_total_witness:
  "distinct (map name [logger_A, logger_B]) \<and>
   resampledBySeries [logger_A, logger_B] \<lparr>dr_start = Some (at_minute 2024 3 15 11 0), dr_end = None\<rparr> ''A.csv'' =
     Some [\<lparr>timestamp = at_minute 2024 3 15 11 0, temperature = 21, timeLabel = ''15/03/2024 11:00''\<rparr>] \<and>
   resampledBySeries [logger_A, logger_B] \<lparr>dr_start = Some (at_minute 2024 3 15 12 0), dr_end = None\<rparr> ''A.csv'' =
     Some [] \<and>
   resampledBySeries [logger_A, logger_B] \<lparr>dr_start = Some (at_minute 2024 3 15 12 0), dr_end = None\<rparr> ''B.csv'' =
     Some [] \<and>
   dom (resampledBySeries [logger_A, logger_B] \<lparr>dr_start = Some (at_minute 2024 3 15 12 0), dr_end = None\<rparr>) =
     {''A.csv'', ''B.csv''}"
proof -
  let ?ss = "[logger_A, logger_B]"
  let ?d11 = "\<lparr>dr_start = Some (at_minute 2024 3 15 11 0), dr_end = None\<rparr>"
  let ?d12 = "\<lparr>dr_start = Some (at_minute 2024 3 15 12 0), dr_end = None\<rparr>"
  have d: "distinct (map name ?ss)"
    by (simp add: name_loggers)
  have a: "logger_A \<in> set ?ss" and b: "logger_B \<in> set ?ss"
    by simp_all
  have "resampledBySeries ?ss ?d11 (name logger_A) =
        Some (filter (\<lambda>r. range_filter_spec (timestamp r) ?d11) (resampled logger_A))"
    using resampled_view_total [of ?ss ?d11 "''A.csv''" logger_A "''A.csv''" viewing] d a by blast
  then have r1: "resampledBySeries ?ss ?d11 ''A.csv'' =
     Some [\<lparr>timestamp = at_minute 2024 3 15 11 0, temperature = 21, timeLabel = ''15/03/2024 11:00''\<rparr>]"
    by (simp add: name_loggers resampled_loggers range_filter_spec_def valueOf_examples)
  have "resampledBySeries ?ss ?d12 (name logger_A) =
        Some (filter (\<lambda>r. range_filter_spec (timestamp r) ?d12) (resampled logger_A))"
    using resampled_view_total [of ?ss ?d12 "''A.csv''" logger_A "''A.csv''" viewing] d a by blast
  then have r2: "resampledBySeries ?ss ?d12 ''A.csv'' = Some []"
    by (simp add: name_loggers resampled_loggers range_filter_spec_def valueOf_examples)
  have "resampledBySeries ?ss ?d12 (name logger_B) =
        Some (filter (\<lambda>r. range_filter_spec (timestamp r) ?d12) (resampled logger_B))"
    using resampled_view_total [of ?ss ?d12 "''A.csv''" logger_B "''A.csv''" viewing] d b by blast
  then have r3: "resampledBySeries ?ss ?d12 ''B.csv'' = Some []"
    by (simp add: name_loggers resampled_loggers)
  have "dom (resampledBySeries ?ss ?d12) = name ` set ?ss"
    using resampled_view_total [of ?ss ?d12 "''A.csv''" logger_B "''A.csv''" viewing] by blast
  then have r4: "dom (resampledBySeries ?ss ?d12) = {''A.csv'', ''B.csv''}"
    by (simp add: name_loggers)
  from d r1 r2 r3 r4 show ?thesis by blast
qed

text \<open>
  C7 as stated, for every series list, fails when two files bear one name: the entry under
  that name is the filtered list of the second file, not that of the first.
\<close>

theorem resampled_own_entry_counterexample:
  "dup_first \<in> set [dup_first, dup_second] \<and>
   resampledBySeries [dup_first, dup_second] \<lparr>dr_start = None, dr_end = None\<rparr> (name dup_first) =
     Some [\<lparr>timestamp = at_minute 2024 3 15 10 0, temperature = 3, timeLabel = ''15/03/2024 10:00''\<rparr>] \<and>
   filter (\<lambda>r. range_filter_spec (timestamp r) \<lparr>dr_start = None, dr_end = None\<rparr>) (resampled dup_first) =
     [\<lparr>timestamp = at_minute 2024 3 15 10 0, temperature = 2, timeLabel = ''15/03/2024 10:00''\<rparr>] \<and>
   resampledBySeries [dup_first, dup_second] \<lparr>dr_start = None, dr_end = None\<rparr> (name dup_first) \<noteq>
     Some (filter (\<lambda>r. range_filter_spec (timestamp r) \<lparr>dr_start = None, dr_end = None\<rparr>)
             (resampled dup_first))"
  by (simp add: resampledBySeries_def resampled_rows_def resampled_dups name_dups range_filter_spec_def)

end
